theory Spec2Isabelle
  imports Main "HOL-Library.AList"
begin

section \<open>JavaScript values\<close>

text \<open>
  The logger of \<^verbatim>\<open>src/logger.js\<close> is plain (sloppy mode) JavaScript. Its functions accept
  arbitrary values, so the model starts with a datatype of the values it is run on: the
  JSON data model (null, booleans, numbers, strings, arrays, plain objects), \<open>undefined\<close>
  and \<open>Date\<close> objects. Functions, symbols, accessor properties and cyclic structures are
  outside the model.

  \<^item> A string is a list of characters; the characters are taken to be ASCII.
  \<^item> The only arithmetic of the logger is \<open>end - start\<close> on two integer clock readings
    (milliseconds) followed by a division by \<open>1000.0\<close>. Numbers are therefore modelled as
    exact decimals with three fractional digits: \<open>Thousandths m\<close> is the number \<open>m / 1000\<close>.
  \<^item> A \<open>Date\<close> object holds a time value, the milliseconds since the epoch, or \<open>NaN\<close>
    (an invalid date): \<open>JDate None\<close>.
  \<^item> A plain object is the list of its own enumerable properties in enumeration order;
    a property is looked up with \<open>map_of\<close>.
\<close>

datatype js_error = TypeError | RangeError

datatype jsnum = Thousandths int

datatype jsval =
    JUndefined
  | JNull
  | JBool bool
  | JNum jsnum
  | JStr string
  | JDate "int option"
  | JArr "jsval list"
  | JObj "(string \<times> jsval) list"

definition num_of_int :: "int \<Rightarrow> jsnum" where
  "num_of_int n = Thousandths (1000 * n)"

text \<open>\<open>typeof v === 'string'\<close>\<close>

fun is_string :: "jsval \<Rightarrow> bool" where
  "is_string (JStr s) = True"
| "is_string v = False"

text \<open>Objects, as opposed to primitive values.\<close>

fun is_object :: "jsval \<Rightarrow> bool" where
  "is_object (JDate t) = True"
| "is_object (JArr xs) = True"
| "is_object (JObj kvs) = True"
| "is_object v = False"

text \<open>\<open>ToBoolean\<close>, the truth value an \<open>if\<close> sees.\<close>

fun truthy :: "jsval \<Rightarrow> bool" where
  "truthy JUndefined = False"
| "truthy JNull = False"
| "truthy (JBool b) = b"
| "truthy (JNum (Thousandths m)) = (m \<noteq> 0)"
| "truthy (JStr s) = (s \<noteq> [])"
| "truthy v = True"

subsection \<open>Strings and numbers\<close>

definition digit_char :: "nat \<Rightarrow> char" where
  "digit_char d = ''0123456789'' ! (d mod 10)"

fun decimal :: "nat \<Rightarrow> string" where
  "decimal n = (if n < 10 then [digit_char n] else decimal (n div 10) @ [digit_char (n mod 10)])"

declare decimal.simps [simp del]

text \<open>Left padding with zeros to a width.\<close>

definition pad :: "nat \<Rightarrow> string \<Rightarrow> string" where
  "pad w s = replicate (w - length s) CHR ''0'' @ s"

definition strip_zeros :: "string \<Rightarrow> string" where
  "strip_zeros s = rev (dropWhile (\<lambda>c. c = CHR ''0'') (rev s))"

text \<open>
  \<open>Number::toString\<close> on a number with three fractional digits: the sign, the integer
  part and, when the fraction is not zero, a point and the fraction without its trailing
  zeros. (The shortest decimal that reads back as the same double is this one as long as
  the number has at most 15 significant digits.)
\<close>

definition num_to_string :: "jsnum \<Rightarrow> string" where
  "num_to_string x = (case x of Thousandths m \<Rightarrow>
     (let a = nat \<bar>m\<bar>;
          frac = (if a mod 1000 = 0 then [] else ''.'' @ strip_zeros (pad 3 (decimal (a mod 1000))))
      in (if m < 0 then ''-'' else []) @ decimal (a div 1000) @ frac))"

text \<open>\<open>String.prototype.toUpperCase\<close> on ASCII.\<close>

definition upper_char :: "char \<Rightarrow> char" where
  "upper_char c =
     (case map_of (zip ''abcdefghijklmnopqrstuvwxyz'' ''ABCDEFGHIJKLMNOPQRSTUVWXYZ'') c of
        Some u \<Rightarrow> u
      | None \<Rightarrow> c)"

definition toUpperCase :: "string \<Rightarrow> string" where
  "toUpperCase s = map upper_char s"

subsection \<open>Dates\<close>

text \<open>
  The functions of the \<open>Date\<close> object that \<open>dateToString\<close> uses, after the ECMAScript
  definitions. A time value is an integer number of milliseconds since 1970-01-01T00:00
  UTC; a \<open>Date\<close> holds one of at most \<open>8.64e15\<close> in magnitude, or \<open>NaN\<close>.
  The local time zone is a parameter \<open>tz\<close>, the value of \<open>getTimezoneOffset()\<close>: the
  minutes that UTC is ahead of local time, taken to be the same at every instant (no
  daylight saving transitions).
\<close>

definition TimeClip :: "int \<Rightarrow> int option" where
  "TimeClip t = (if \<bar>t\<bar> > 8640000000000000 then None else Some t)"

text \<open>\<open>new Date()\<close> at the clock reading \<open>now\<close>, and \<open>new Date(value)\<close>.\<close>

definition new_Date :: "int \<Rightarrow> jsval" where
  "new_Date now = JDate (TimeClip now)"

definition Day :: "int \<Rightarrow> int" where
  "Day t = t div 86400000"

definition HourFromTime :: "int \<Rightarrow> int" where
  "HourFromTime t = (t div 3600000) mod 24"

definition MinFromTime :: "int \<Rightarrow> int" where
  "MinFromTime t = (t div 60000) mod 60"

definition SecFromTime :: "int \<Rightarrow> int" where
  "SecFromTime t = (t div 1000) mod 60"

definition msFromTime :: "int \<Rightarrow> int" where
  "msFromTime t = t mod 1000"

definition MakeTime :: "int \<Rightarrow> int \<Rightarrow> int \<Rightarrow> int \<Rightarrow> int" where
  "MakeTime hour minute sec ms = hour * 3600000 + minute * 60000 + sec * 1000 + ms"

definition MakeDate :: "int \<Rightarrow> int \<Rightarrow> int" where
  "MakeDate day time = day * 86400000 + time"

definition LocalTime :: "int \<Rightarrow> int \<Rightarrow> int" where
  "LocalTime tz t = t - tz * 60000"

definition UTC :: "int \<Rightarrow> int \<Rightarrow> int" where
  "UTC tz t = t + tz * 60000"

definition getMinutes :: "int \<Rightarrow> int \<Rightarrow> int" where
  "getMinutes tz t = MinFromTime (LocalTime tz t)"

text \<open>\<open>setMinutes(m)\<close> on a valid date: the minute field of the local time is replaced.\<close>

definition setMinutes :: "int \<Rightarrow> int \<Rightarrow> int \<Rightarrow> int option" where
  "setMinutes tz t m =
     (let lt = LocalTime tz t
      in TimeClip (UTC tz (MakeDate (Day lt)
           (MakeTime (HourFromTime lt) m (SecFromTime lt) (msFromTime lt)))))"

text \<open>
  The calendar date of a day number (days since the epoch) in the proleptic Gregorian
  calendar: year, month (1 to 12) and day of the month.
\<close>

definition civil_from_days :: "int \<Rightarrow> int \<times> int \<times> int" where
  "civil_from_days z0 =
     (let z = z0 + 719468;
          era = z div 146097;
          doe = z mod 146097;
          yoe = (doe - doe div 1460 + doe div 36524 - doe div 146096) div 365;
          doy = doe - (365 * yoe + yoe div 4 - yoe div 100);
          mp = (5 * doy + 2) div 153;
          d = doy - (153 * mp + 2) div 5 + 1;
          m = (if mp < 10 then mp + 3 else mp - 9);
          y = yoe + era * 400 + (if m \<le> 2 then 1 else 0)
      in (y, m, d))"

definition iso_year :: "int \<Rightarrow> string" where
  "iso_year y =
     (if 0 \<le> y \<and> y \<le> 9999 then pad 4 (decimal (nat y))
      else (if y < 0 then ''-'' else ''+'') @ pad 6 (decimal (nat \<bar>y\<bar>)))"

text \<open>\<open>toISOString()\<close>: \<open>YYYY-MM-DDTHH:mm:ss.sssZ\<close> in UTC; a \<open>RangeError\<close> on an invalid date.\<close>

definition iso_string :: "int \<Rightarrow> string" where
  "iso_string t =
     (case civil_from_days (Day t) of (y, m, d) \<Rightarrow>
        iso_year y @ ''-'' @ pad 2 (decimal (nat m)) @ ''-'' @ pad 2 (decimal (nat d)) @ ''T''
        @ pad 2 (decimal (nat (HourFromTime t))) @ '':''
        @ pad 2 (decimal (nat (MinFromTime t))) @ '':''
        @ pad 2 (decimal (nat (SecFromTime t))) @ ''.''
        @ pad 3 (decimal (nat (msFromTime t))) @ ''Z'')"

definition toISOString :: "int option \<Rightarrow> js_error + string" where
  "toISOString tv = (case tv of None \<Rightarrow> Inl RangeError | Some t \<Rightarrow> Inr (iso_string t))"

subsection \<open>\<open>JSON.stringify(value, null, 2)\<close>\<close>

definition hex_char :: "nat \<Rightarrow> char" where
  "hex_char d = ''0123456789abcdef'' ! (d mod 16)"

definition quote_char :: "char \<Rightarrow> string" where
  "quote_char c =
     (if c = CHR 0x08 then [CHR 0x5C, CHR ''b'']
      else if c = CHR 0x09 then [CHR 0x5C, CHR ''t'']
      else if c = CHR 0x0A then [CHR 0x5C, CHR ''n'']
      else if c = CHR 0x0C then [CHR 0x5C, CHR ''f'']
      else if c = CHR 0x0D then [CHR 0x5C, CHR ''r'']
      else if c = CHR 0x22 then [CHR 0x5C, CHR 0x22]
      else if c = CHR 0x5C then [CHR 0x5C, CHR 0x5C]
      else if (of_char c :: nat) < 32
        then [CHR 0x5C] @ ''u00'' @ [hex_char (of_char c div 16), hex_char (of_char c mod 16)]
      else [c])"

definition QuoteJSONString :: "string \<Rightarrow> string" where
  "QuoteJSONString s = [CHR 0x22] @ concat (map quote_char s) @ [CHR 0x22]"

text \<open>The separator between the members of an array or an object.\<close>

fun join :: "string \<Rightarrow> string list \<Rightarrow> string" where
  "join sep [] = []"
| "join sep [x] = x"
| "join sep (x # y # ys) = x @ sep @ join sep (y # ys)"

text \<open>
  \<open>SerializeJSONProperty\<close> with a gap of two spaces; \<open>indent\<close> is the current indentation.
  The result \<open>None\<close> is \<open>undefined\<close>. A \<open>Date\<close> is serialised through its \<open>toJSON\<close>
  method, which gives \<open>null\<close> for an invalid date and \<open>toISOString()\<close> otherwise. In an
  array \<open>undefined\<close> is written \<open>null\<close>; in an object a property whose value is
  \<open>undefined\<close> is left out.
\<close>

fun SerializeJSONProperty :: "string \<Rightarrow> jsval \<Rightarrow> string option"
  and SerializeJSONArray :: "string \<Rightarrow> jsval list \<Rightarrow> string list"
  and SerializeJSONObject :: "string \<Rightarrow> (string \<times> jsval) list \<Rightarrow> string list"
where
  "SerializeJSONProperty indent JUndefined = None"
| "SerializeJSONProperty indent JNull = Some ''null''"
| "SerializeJSONProperty indent (JBool b) = Some (if b then ''true'' else ''false'')"
| "SerializeJSONProperty indent (JNum x) = Some (num_to_string x)"
| "SerializeJSONProperty indent (JStr s) = Some (QuoteJSONString s)"
| "SerializeJSONProperty indent (JDate tv) =
     (case tv of None \<Rightarrow> Some ''null'' | Some t \<Rightarrow> Some (QuoteJSONString (iso_string t)))"
| "SerializeJSONProperty indent (JArr xs) =
     (let stepback = indent; indent' = indent @ ''  '';
          partial = SerializeJSONArray indent' xs
      in if partial = [] then Some ''[]''
         else Some (''['' @ [CHR 0x0A] @ indent' @ join ('','' @ [CHR 0x0A] @ indent') partial
                    @ [CHR 0x0A] @ stepback @ '']''))"
| "SerializeJSONProperty indent (JObj kvs) =
     (let stepback = indent; indent' = indent @ ''  '';
          partial = SerializeJSONObject indent' kvs
      in if partial = [] then Some ''{}''
         else Some (''{'' @ [CHR 0x0A] @ indent' @ join ('','' @ [CHR 0x0A] @ indent') partial
                    @ [CHR 0x0A] @ stepback @ ''}''))"
| "SerializeJSONArray indent [] = []"
| "SerializeJSONArray indent (x # xs) =
     (case SerializeJSONProperty indent x of None \<Rightarrow> ''null'' | Some strP \<Rightarrow> strP)
     # SerializeJSONArray indent xs"
| "SerializeJSONObject indent [] = []"
| "SerializeJSONObject indent ((P, v) # kvs) =
     (case SerializeJSONProperty indent v of
        None \<Rightarrow> SerializeJSONObject indent kvs
      | Some strP \<Rightarrow> (QuoteJSONString P @ '': '' @ strP) # SerializeJSONObject indent kvs)"

text \<open>\<open>JSON.stringify(value, null, 2)\<close>: a string, or \<open>undefined\<close>.\<close>

definition JSON_stringify :: "jsval \<Rightarrow> jsval" where
  "JSON_stringify v = (case SerializeJSONProperty [] v of None \<Rightarrow> JUndefined | Some s \<Rightarrow> JStr s)"

section \<open>The logger\<close>

subsection \<open>State\<close>

text \<open>
  \<^verbatim>\<open>this.timeTracking = []\<close> is an \<open>Array\<close> used as a dictionary from timer names to start
  times. Its own properties are the built-in \<open>length\<close> and the properties that \<open>time\<close>
  has created; everything else is looked up in \<open>Array.prototype\<close> and
  \<open>Object.prototype\<close>.
\<close>

record tracker =
  length_prop :: nat
  named :: "string \<Rightarrow> int option"

text \<open>
  The state: the fields of the logger object, the lines that the default
  \<open>printFunction\<close> (\<open>console.log\<close>) has been given, and the global variables. The loops of
  \<open>formatLogEntry\<close> and \<open>dumpToString\<close> assign \<open>key\<close>, \<open>i\<close>, \<open>logEntry\<close> and \<open>logLine\<close>
  without declaring them, which in sloppy mode makes them properties of the global object.
\<close>

record state =
  log :: "jsval list"
  timeTracking :: tracker
  printToConsole :: bool
  writeToFile :: bool
  logFilePath :: jsval
  console :: "string list"
  globals :: "string \<Rightarrow> jsval option"

subsection \<open>\<open>jsLogger.dateToString\<close>\<close>

text \<open>
  \<open>now\<close> is the reading of the clock, used when \<open>date\<close> is \<open>undefined\<close>. Reading the
  property \<open>setMinutes\<close> of \<open>null\<close> is a \<open>TypeError\<close>; of the values of the model only a
  \<open>Date\<close> has a function there.
\<close>

definition dateToString :: "int \<Rightarrow> int \<Rightarrow> jsval \<Rightarrow> jsval \<Rightarrow> js_error + string" where
  "dateToString tz now date0 useCurrentTimezone0 =
     (let date = (if date0 \<noteq> JUndefined then date0 else new_Date now);
          useCurrentTimezone =
            (if useCurrentTimezone0 \<noteq> JUndefined then useCurrentTimezone0 else JBool True)
      in case date of
           JNull \<Rightarrow> Inl TypeError
         | JDate tv \<Rightarrow>
             (let dateCopy = (case tv of None \<Rightarrow> None | Some t \<Rightarrow> TimeClip t);
                  dateCopy' =
                    (if truthy useCurrentTimezone
                     then (case dateCopy of
                             None \<Rightarrow> None
                           | Some t \<Rightarrow> setMinutes tz t (getMinutes tz t - tz))
                     else dateCopy)
              in case toISOString dateCopy' of
                   Inl e \<Rightarrow> Inl e
                 | Inr output \<Rightarrow> Inr (butlast output))
         | _ \<Rightarrow> Inr [])"

subsection \<open>\<open>formatLogEntry\<close>\<close>

definition get :: "(string \<times> jsval) list \<Rightarrow> string \<Rightarrow> jsval" where
  "get obj key = (case map_of obj key of None \<Rightarrow> JUndefined | Some v \<Rightarrow> v)"

definition has :: "(string \<times> jsval) list \<Rightarrow> string \<Rightarrow> bool" where
  "has obj key = (map_of obj key \<noteq> None)"

text \<open>
  The loop \<^verbatim>\<open>for ( key in logEntry )\<close> over the keys of the entry, updating the copy.
\<close>

fun stringify_loop ::
  "(string \<times> jsval) list \<Rightarrow> string list \<Rightarrow> (string \<times> jsval) list \<Rightarrow> (string \<times> jsval) list"
where
  "stringify_loop logEntry [] logEntryCopy = logEntryCopy"
| "stringify_loop logEntry (key # keys) logEntryCopy =
     stringify_loop logEntry keys
       (if \<not> is_string (get logEntry key) \<and> key \<noteq> ''timestamp''
        then AList.update key (JSON_stringify (get logEntry key)) logEntryCopy
        else logEntryCopy)"

text \<open>
  The operator \<open>in\<close> throws a \<open>TypeError\<close> on a primitive value. Arrays and dates have no
  property named \<open>timestamp\<close>, \<open>message\<close> or \<open>level\<close>, and neither have the prototypes.
  After the loop the copy's \<open>level\<close> and \<open>message\<close> are strings or \<open>undefined\<close>: calling
  \<open>toUpperCase\<close> on \<open>undefined\<close> is a \<open>TypeError\<close>, appending \<open>undefined\<close> to a string
  appends the text \<open>undefined\<close>.
\<close>

definition formatLogEntry :: "int \<Rightarrow> int \<Rightarrow> jsval \<Rightarrow> state \<Rightarrow> (js_error + string) \<times> state" where
  "formatLogEntry tz now logEntry s =
     (case logEntry of
        JObj kvs \<Rightarrow>
          if has kvs ''timestamp'' \<and> has kvs ''message'' \<and> has kvs ''level'' then
            (let logEntryCopy = stringify_loop kvs (map fst kvs) kvs;
                 s' = s\<lparr>globals := (globals s)(''key'' \<mapsto> JStr (last (map fst kvs)))\<rparr>
             in case dateToString tz now (get logEntryCopy ''timestamp'') (JBool True) of
                  Inl e \<Rightarrow> (Inl e, s')
                | Inr d \<Rightarrow>
                    (case get logEntryCopy ''level'' of
                       JStr level \<Rightarrow>
                         (Inr (d @ '' '' @ ''['' @ toUpperCase level @ ''] : ''
                               @ (case get logEntryCopy ''message'' of
                                    JStr message \<Rightarrow> message
                                  | _ \<Rightarrow> ''undefined'')),
                          s')
                     | _ \<Rightarrow> (Inl TypeError, s')))
          else (Inr [], s)
      | JArr xs \<Rightarrow> (Inr [], s)
      | JDate tv \<Rightarrow> (Inr [], s)
      | _ \<Rightarrow> (Inl TypeError, s))"

subsection \<open>\<open>add\<close> and the four levels\<close>

text \<open>
  An exception leaves the state as it is at the throw: the entry has been pushed when
  \<open>formatLogEntry\<close> runs.
\<close>

definition add :: "int \<Rightarrow> int \<Rightarrow> jsval \<Rightarrow> jsval \<Rightarrow> state \<Rightarrow> (js_error + jsval) \<times> state" where
  "add tz now message level0 s =
     (let level = (if level0 \<noteq> JUndefined then level0 else JStr ''debug'');
          logEntry = JObj [(''timestamp'', new_Date now), (''message'', message), (''level'', level)];
          s1 = s\<lparr>log := log s @ [logEntry]\<rparr>
      in if writeToFile s1 \<or> printToConsole s1 then
           (case formatLogEntry tz now logEntry s1 of
              (Inl e, s2) \<Rightarrow> (Inl e, s2)
            | (Inr outputLine, s2) \<Rightarrow>
                (Inr logEntry,
                 if printToConsole s2 then s2\<lparr>console := console s2 @ [outputLine]\<rparr> else s2))
         else (Inr logEntry, s1))"

definition info :: "int \<Rightarrow> int \<Rightarrow> jsval \<Rightarrow> state \<Rightarrow> (js_error + jsval) \<times> state" where
  "info tz now message s = add tz now message (JStr ''info'') s"

definition debug :: "int \<Rightarrow> int \<Rightarrow> jsval \<Rightarrow> state \<Rightarrow> (js_error + jsval) \<times> state" where
  "debug tz now message s = add tz now message (JStr ''debug'') s"

definition warning :: "int \<Rightarrow> int \<Rightarrow> jsval \<Rightarrow> state \<Rightarrow> (js_error + jsval) \<times> state" where
  "warning tz now message s = add tz now message (JStr ''warning'') s"

definition error :: "int \<Rightarrow> int \<Rightarrow> jsval \<Rightarrow> state \<Rightarrow> (js_error + jsval) \<times> state" where
  "error tz now message s = add tz now message (JStr ''error'') s"

subsection \<open>\<open>time\<close> and \<open>timeEnd\<close>\<close>

text \<open>
  An array index is the canonical decimal string of a number below \<open>2^32 - 1\<close>; creating
  a property with such a name raises \<open>length\<close>.
\<close>

definition digit_val :: "char \<Rightarrow> nat" where
  "digit_val c = (of_char c :: nat) - 48"

definition array_index :: "string \<Rightarrow> nat option" where
  "array_index k =
     (if k \<noteq> [] \<and> list_all (\<lambda>c. c \<in> set ''0123456789'') k \<and> (k = ''0'' \<or> hd k \<noteq> CHR ''0'')
      then (let n = foldl (\<lambda>a c. 10 * a + digit_val c) 0 k
            in if n < 4294967295 then Some n else None)
      else None)"

text \<open>The own property of the array under a name, if there is one.\<close>

definition own_property :: "tracker \<Rightarrow> string \<Rightarrow> int option" where
  "own_property tt name = (if name = ''length'' then Some (int (length_prop tt)) else named tt name)"

text \<open>
  \<^verbatim>\<open>this.timeTracking.hasOwnProperty( name )\<close> looks the method up on the array first: once
  a timer named \<open>hasOwnProperty\<close> exists the call finds a number, not a function.
\<close>

definition hasOwnProperty :: "tracker \<Rightarrow> string \<Rightarrow> js_error + bool" where
  "hasOwnProperty tt name =
     (if named tt ''hasOwnProperty'' \<noteq> None then Inl TypeError
      else Inr (own_property tt name \<noteq> None))"

text \<open>\<^verbatim>\<open>this.timeTracking[ name ] = v\<close> for a name that is neither own nor \<open>__proto__\<close>.\<close>

definition put_property :: "tracker \<Rightarrow> string \<Rightarrow> int \<Rightarrow> tracker" where
  "put_property tt name v =
     tt\<lparr>named := (named tt)(name \<mapsto> v),
        length_prop := (case array_index name of
                          Some i \<Rightarrow> max (length_prop tt) (Suc i)
                        | None \<Rightarrow> length_prop tt)\<rparr>"

text \<open>\<^verbatim>\<open>delete this.timeTracking[ name ]\<close>; \<open>length\<close> cannot be deleted, and sloppy mode says nothing.\<close>

definition delete_property :: "tracker \<Rightarrow> string \<Rightarrow> tracker" where
  "delete_property tt name =
     (if name = ''length'' then tt else tt\<lparr>named := (named tt)(name := None)\<rparr>)"

text \<open>
  What \<open>time\<close> returns: the start time, \<open>false\<close>, or the object \<open>Array.prototype\<close>.
  Assigning to \<open>__proto__\<close> calls the setter inherited from \<open>Object.prototype\<close>, which
  ignores a number, and reading it back gives the prototype of the array.
\<close>

datatype time_result = StartTime int | TimeFalse | ArrayPrototype

definition time :: "string \<Rightarrow> int \<Rightarrow> state \<Rightarrow> (js_error + time_result) \<times> state" where
  "time name now s =
     (case hasOwnProperty (timeTracking s) name of
        Inl e \<Rightarrow> (Inl e, s)
      | Inr True \<Rightarrow> (Inr TimeFalse, s)
      | Inr False \<Rightarrow>
          if name = ''__proto__'' then (Inr ArrayPrototype, s)
          else (Inr (StartTime now), s\<lparr>timeTracking := put_property (timeTracking s) name now\<rparr>))"

text \<open>
  What \<open>timeEnd\<close> returns: the elapsed seconds or \<open>false\<close>. \<open>end\<close> is the clock read by
  \<open>Date.now()\<close>, \<open>stamp\<close> the clock read afterwards by \<open>add\<close>.
\<close>

datatype timeEnd_result = Elapsed jsnum | TimeEndFalse

definition timeEnd ::
  "int \<Rightarrow> string \<Rightarrow> int \<Rightarrow> int \<Rightarrow> state \<Rightarrow> (js_error + timeEnd_result) \<times> state"
where
  "timeEnd tz name end stamp s =
     (case hasOwnProperty (timeTracking s) name of
        Inl e \<Rightarrow> (Inl e, s)
      | Inr found \<Rightarrow>
          (case own_property (timeTracking s) name of
             None \<Rightarrow> (Inr TimeEndFalse, s)
           | Some start \<Rightarrow>
               (let elapsedTime = Thousandths (end - start);
                    s1 = s\<lparr>timeTracking := delete_property (timeTracking s) name\<rparr>
                in case add tz stamp
                          (JStr ([CHR 0x27] @ name @ [CHR 0x27] @ '' took ''
                                 @ num_to_string elapsedTime @ '' seconds''))
                          JUndefined s1 of
                     (Inl e, s2) \<Rightarrow> (Inl e, s2)
                   | (Inr logEntry, s2) \<Rightarrow> (Inr (Elapsed elapsedTime), s2))))"

subsection \<open>\<open>dumpToString\<close>\<close>

text \<open>
  The loop \<^verbatim>\<open>for ( i in this.log )\<close>: \<open>i\<close> runs through the indices as strings, \<open>es\<close> are
  the entries still to come.
\<close>

fun dump_loop ::
  "int \<Rightarrow> int \<Rightarrow> jsval list \<Rightarrow> nat \<Rightarrow> string \<Rightarrow> state \<Rightarrow> (js_error + string) \<times> state"
where
  "dump_loop tz now [] i output s = (Inr output, s)"
| "dump_loop tz now (logEntry # es) i output s =
     (case formatLogEntry tz now logEntry
             (s\<lparr>globals := (globals s)(''i'' \<mapsto> JStr (decimal i), ''logEntry'' \<mapsto> logEntry)\<rparr>) of
        (Inl e, s1) \<Rightarrow> (Inl e, s1)
      | (Inr logLine, s1) \<Rightarrow>
          dump_loop tz now es (Suc i) (output @ logLine @ [CHR 0x0A])
            (s1\<lparr>globals := (globals s1)(''logLine'' \<mapsto> JStr logLine)\<rparr>))"

definition dumpToString :: "int \<Rightarrow> int \<Rightarrow> state \<Rightarrow> (js_error + string) \<times> state" where
  "dumpToString tz now s = dump_loop tz now (log s) 0 [] s"

subsection \<open>The constructor\<close>

text \<open>
  \<^verbatim>\<open>new jsLogger( printToConsole, printFunction, writeToFile, logFilePath )\<close> at the clock
  reading \<open>now\<close>. No value of the model is a function, so \<open>printFunction\<close> is the default,
  which writes its argument to the console. The console and the global variables start
  empty.
\<close>

definition jsLogger ::
  "int \<Rightarrow> int \<Rightarrow> jsval \<Rightarrow> jsval \<Rightarrow> jsval \<Rightarrow> jsval \<Rightarrow> js_error + state"
where
  "jsLogger tz now printToConsole0 printFunction0 writeToFile0 logFilePath0 =
     (case (if logFilePath0 \<noteq> JUndefined then Inr logFilePath0
            else (case dateToString tz now (new_Date now) JUndefined of
                    Inl e \<Rightarrow> Inl e
                  | Inr d \<Rightarrow> Inr (JStr (d @ ''.log'')))) of
        Inl e \<Rightarrow> Inl e
      | Inr path \<Rightarrow>
          Inr \<lparr>log = [],
               timeTracking = \<lparr>length_prop = 0, named = Map.empty\<rparr>,
               printToConsole = (case printToConsole0 of JBool b \<Rightarrow> b | _ \<Rightarrow> True),
               writeToFile = (case writeToFile0 of JBool b \<Rightarrow> b | _ \<Rightarrow> False),
               logFilePath = path,
               console = [],
               globals = Map.empty\<rparr>)"

section \<open>Vocabulary of the properties\<close>

text \<open>
  A clock reading is renderable in a time zone when it is a time value and stays one
  after the shift to local time that \<open>dateToString\<close> makes.
\<close>

definition renderable :: "int \<Rightarrow> int \<Rightarrow> bool" where
  "renderable tz t = (\<bar>t\<bar> \<le> 8640000000000000 \<and> \<bar>t - tz * 60000\<bar> \<le> 8640000000000000)"

text \<open>A call of one of the four level methods, and a sequence of them with the clock of each.\<close>

datatype call = Info jsval | Debug jsval | Warning jsval | Error jsval

fun invoke :: "int \<Rightarrow> int \<Rightarrow> call \<Rightarrow> state \<Rightarrow> (js_error + jsval) \<times> state" where
  "invoke tz now (Info message) s = info tz now message s"
| "invoke tz now (Debug message) s = debug tz now message s"
| "invoke tz now (Warning message) s = warning tz now message s"
| "invoke tz now (Error message) s = error tz now message s"

fun run :: "int \<Rightarrow> (int \<times> call) list \<Rightarrow> state \<Rightarrow> (js_error + jsval) list \<times> state" where
  "run tz [] s = ([], s)"
| "run tz ((now, c) # cs) s =
     (case invoke tz now c s of (r, s1) \<Rightarrow>
        (case run tz cs s1 of (rs, s2) \<Rightarrow> (r # rs, s2)))"

fun level_of :: "call \<Rightarrow> string" where
  "level_of (Info message) = ''info''"
| "level_of (Debug message) = ''debug''"
| "level_of (Warning message) = ''warning''"
| "level_of (Error message) = ''error''"

fun message_of :: "call \<Rightarrow> jsval" where
  "message_of (Info message) = message"
| "message_of (Debug message) = message"
| "message_of (Warning message) = message"
| "message_of (Error message) = message"

text \<open>The entry that a call at the clock reading \<open>now\<close> is expected to append.\<close>

definition entry_of :: "int \<times> call \<Rightarrow> jsval" where
  "entry_of nc =
     JObj [(''timestamp'', new_Date (fst nc)),
           (''message'', message_of (snd nc)),
           (''level'', JStr (level_of (snd nc)))]"

text \<open>The level recorded in an entry.\<close>

fun level_in :: "jsval \<Rightarrow> jsval" where
  "level_in (JObj kvs) = get kvs ''level''"
| "level_in v = JUndefined"

text \<open>\<open>Date\<close> objects, valid or not.\<close>

fun is_date :: "jsval \<Rightarrow> bool" where
  "is_date (JDate tv) = True"
| "is_date v = False"

text \<open>An attribute as the line shows it: a string as it is, anything else serialised.\<close>

definition stringified :: "jsval \<Rightarrow> jsval" where
  "stringified v = (if is_string v then v else JSON_stringify v)"

text \<open>An object without one of the three attributes of an entry.\<close>

fun lacks_attribute :: "jsval \<Rightarrow> bool" where
  "lacks_attribute (JObj kvs) =
     (\<not> (has kvs ''timestamp'' \<and> has kvs ''message'' \<and> has kvs ''level''))"
| "lacks_attribute (JArr xs) = True"
| "lacks_attribute (JDate tv) = True"
| "lacks_attribute v = False"

text \<open>
  The value of \<^verbatim>\<open>r1 + "\n" + r2 + "\n" + ...\<close> for the results \<open>r1\<close>, \<open>r2\<close>, ... of a
  sequence of calls: the first call that throws ends the evaluation.
\<close>

fun concat_lines :: "(js_error + string) list \<Rightarrow> js_error + string" where
  "concat_lines [] = Inr []"
| "concat_lines (Inl e # rs) = Inl e"
| "concat_lines (Inr line # rs) =
     (case concat_lines rs of
        Inl e \<Rightarrow> Inl e
      | Inr rest \<Rightarrow> Inr (line @ [CHR 0x0A] @ rest))"

text \<open>The logger that \<^verbatim>\<open>new jsLogger( b, undefined, undefined, 'example.log' )\<close> builds.\<close>

definition example_logger :: "bool \<Rightarrow> state" where
  "example_logger b =
     \<lparr>log = [],
      timeTracking = \<lparr>length_prop = 0, named = Map.empty\<rparr>,
      printToConsole = b,
      writeToFile = False,
      logFilePath = JStr ''example.log'',
      console = [],
      globals = Map.empty\<rparr>"

section \<open>Auxiliary facts\<close>

subsection \<open>Dates\<close>

lemma time_fields:
  "(t::int) = Day t * 86400000 + HourFromTime t * 3600000 + MinFromTime t * 60000
              + SecFromTime t * 1000 + msFromTime t"
proof -
  have d1: "t div 60000 = t div 1000 div 60"
    using zdiv_zmult2_eq [of 60 t 1000] by simp
  have d2: "t div 3600000 = t div 60000 div 60"
    using zdiv_zmult2_eq [of 60 t 60000] by simp
  have d3: "t div 86400000 = t div 3600000 div 24"
    using zdiv_zmult2_eq [of 24 t 3600000] by simp
  have s0: "t = 1000 * (t div 1000) + t mod 1000" by simp
  have s1: "t div 1000 = 60 * (t div 60000) + t div 1000 mod 60"
    unfolding d1 by simp
  have s2: "t div 60000 = 60 * (t div 3600000) + t div 60000 mod 60"
    unfolding d2 by simp
  have s3: "t div 3600000 = 24 * (t div 86400000) + t div 3600000 mod 24"
    unfolding d3 by simp
  show ?thesis
    unfolding Day_def HourFromTime_def MinFromTime_def SecFromTime_def msFromTime_def
    using s0 s1 s2 s3 by linarith
qed

lemma setMinutes_shift: "setMinutes tz t (getMinutes tz t - tz) = TimeClip (t - tz * 60000)"
proof -
  define lt where "lt = LocalTime tz t"
  have "MakeDate (Day lt) (MakeTime (HourFromTime lt) (MinFromTime lt - tz) (SecFromTime lt) (msFromTime lt))
        = lt - tz * 60000"
    using time_fields [of lt] by (simp add: MakeDate_def MakeTime_def algebra_simps)
  then show ?thesis
    by (simp add: setMinutes_def getMinutes_def lt_def [symmetric] UTC_def, simp add: lt_def LocalTime_def)
qed

lemma dateToString_Date:
  "renderable tz t \<Longrightarrow> dateToString tz now (JDate (Some t)) (JBool True) = Inr (butlast (iso_string (t - tz * 60000)))"
  by (simp add: dateToString_def setMinutes_shift TimeClip_def toISOString_def renderable_def)

lemma new_Date_renderable: "renderable tz t \<Longrightarrow> new_Date t = JDate (Some t)"
  by (simp add: new_Date_def TimeClip_def renderable_def)

subsection \<open>The formatter\<close>

lemma map_of_stringify_loop:
  "map_of (stringify_loop e keys c) k =
     (if k \<in> set keys \<and> \<not> is_string (get e k) \<and> k \<noteq> ''timestamp''
      then Some (JSON_stringify (get e k)) else map_of c k)"
  by (induction keys arbitrary: c) (auto simp: update_conv)

lemma get_stringify_loop:
  "get (stringify_loop kvs (map fst kvs) kvs) k =
     (if k = ''timestamp'' then get kvs k else stringified (get kvs k))"
proof (cases "map_of kvs k")
  case None
  then have "k \<notin> set (map fst kvs)"
    by (simp add: map_of_eq_None_iff)
  moreover have "stringified JUndefined = JUndefined"
    by (simp add: stringified_def JSON_stringify_def)
  ultimately show ?thesis
    using None unfolding get_def map_of_stringify_loop by (cases "k = ''timestamp''") simp_all
next
  case (Some v)
  then have "k \<in> set (map fst kvs)"
    using map_of_eq_None_iff [of kvs k] by simp
  then show ?thesis
    using Some unfolding get_def map_of_stringify_loop stringified_def by simp
qed

lemma formatLogEntry_state:
  "snd (formatLogEntry tz now e s) =
     (case e of
        JObj kvs \<Rightarrow>
          if has kvs ''timestamp'' \<and> has kvs ''message'' \<and> has kvs ''level''
          then s\<lparr>globals := (globals s)(''key'' \<mapsto> JStr (last (map fst kvs)))\<rparr>
          else s
      | _ \<Rightarrow> s)"
proof (cases e)
  case (JObj kvs)
  show ?thesis
  proof (cases "dateToString tz now (get (stringify_loop kvs (map fst kvs) kvs) ''timestamp'') (JBool True)")
    case (Inl err)
    with JObj show ?thesis by (simp add: formatLogEntry_def Let_def)
  next
    case (Inr d)
    with JObj show ?thesis
      by (cases "get (stringify_loop kvs (map fst kvs) kvs) ''level''")
         (simp_all add: formatLogEntry_def Let_def)
  qed
qed (simp_all add: formatLogEntry_def)

lemma formatLogEntry_complete:
  assumes "has kvs ''timestamp''" "has kvs ''message''" "has kvs ''level''"
  shows "fst (formatLogEntry tz now (JObj kvs) s) =
     (case dateToString tz now (get kvs ''timestamp'') (JBool True) of
        Inl e \<Rightarrow> Inl e
      | Inr d \<Rightarrow>
          (case stringified (get kvs ''level'') of
             JStr level \<Rightarrow>
               Inr (d @ '' ['' @ toUpperCase level @ ''] : ''
                    @ (case stringified (get kvs ''message'') of
                         JStr message \<Rightarrow> message
                       | _ \<Rightarrow> ''undefined''))
           | _ \<Rightarrow> Inl TypeError))"
proof (cases "dateToString tz now (get kvs ''timestamp'') (JBool True)")
  case (Inl e)
  with assms show ?thesis
    by (simp add: formatLogEntry_def Let_def get_stringify_loop)
next
  case (Inr d)
  with assms show ?thesis
    by (cases "stringified (get kvs ''level'')")
       (simp_all add: formatLogEntry_def Let_def get_stringify_loop)
qed

lemma formatLogEntry_entry:
  assumes "renderable tz t"
  shows "fst (formatLogEntry tz now
                (JObj [(''timestamp'', new_Date t), (''message'', m), (''level'', JStr l)]) s)
     = Inr (butlast (iso_string (t - tz * 60000)) @ '' ['' @ toUpperCase l @ ''] : ''
            @ (case stringified m of JStr message \<Rightarrow> message | _ \<Rightarrow> ''undefined''))"
proof -
  let ?kvs = "[(''timestamp'', new_Date t), (''message'', m), (''level'', JStr l)]"
  have attrs: "has ?kvs ''timestamp''" "has ?kvs ''message''" "has ?kvs ''level''"
    by (simp_all add: has_def)
  have vals: "get ?kvs ''timestamp'' = JDate (Some t)" "get ?kvs ''message'' = m"
             "get ?kvs ''level'' = JStr l"
    using assms by (simp_all add: get_def new_Date_renderable)
  have "stringified (JStr l) = JStr l" by (simp add: stringified_def)
  then show ?thesis
    unfolding formatLogEntry_complete [OF attrs] vals
    using assms by (simp add: dateToString_Date)
qed

subsection \<open>Appending entries\<close>

lemma add_eq:
  "add tz now m l s =
     (let level = (if l \<noteq> JUndefined then l else JStr ''debug'');
          logEntry = JObj [(''timestamp'', new_Date now), (''message'', m), (''level'', level)];
          s1 = s\<lparr>log := log s @ [logEntry]\<rparr>;
          s2 = s1\<lparr>globals := (globals s)(''key'' \<mapsto> JStr ''level'')\<rparr>
      in if writeToFile s \<or> printToConsole s then
           (case fst (formatLogEntry tz now logEntry s1) of
              Inl e \<Rightarrow> (Inl e, s2)
            | Inr outputLine \<Rightarrow>
                (Inr logEntry,
                 if printToConsole s then s2\<lparr>console := console s @ [outputLine]\<rparr> else s2))
         else (Inr logEntry, s1))"
proof -
  define level where "level = (if l \<noteq> JUndefined then l else JStr ''debug'')"
  define logEntry where
    "logEntry = JObj [(''timestamp'', new_Date now), (''message'', m), (''level'', level)]"
  define s1 where "s1 = s\<lparr>log := log s @ [logEntry]\<rparr>"
  have snd_format: "snd (formatLogEntry tz now logEntry s1) =
          s1\<lparr>globals := (globals s)(''key'' \<mapsto> JStr ''level'')\<rparr>"
    by (simp add: formatLogEntry_state logEntry_def has_def s1_def)
  obtain r s' where rs: "formatLogEntry tz now logEntry s1 = (r, s')"
    by (cases "formatLogEntry tz now logEntry s1")
  with snd_format have s': "s' = s1\<lparr>globals := (globals s)(''key'' \<mapsto> JStr ''level'')\<rparr>"
    by simp
  have "add tz now m l s =
      (if writeToFile s \<or> printToConsole s then
           (case r of
              Inl e \<Rightarrow> (Inl e, s')
            | Inr outputLine \<Rightarrow>
                (Inr logEntry,
                 if printToConsole s then s'\<lparr>console := console s @ [outputLine]\<rparr> else s'))
         else (Inr logEntry, s1))"
    unfolding add_def Let_def level_def [symmetric] logEntry_def [symmetric] s1_def [symmetric]
    using rs by (cases r) (simp_all add: s1_def s')
  then show ?thesis
    unfolding Let_def level_def [symmetric] logEntry_def [symmetric] s1_def [symmetric]
    by (cases r) (simp_all add: rs s')
qed

lemma add_log:
  "log (snd (add tz now m l s)) =
     log s @ [JObj [(''timestamp'', new_Date now), (''message'', m),
                    (''level'', if l \<noteq> JUndefined then l else JStr ''debug'')]]"
  unfolding add_eq Let_def by (simp split: sum.split)

lemma add_config:
  "printToConsole (snd (add tz now m l s)) = printToConsole s"
  "writeToFile (snd (add tz now m l s)) = writeToFile s"
  "timeTracking (snd (add tz now m l s)) = timeTracking s"
  unfolding add_eq Let_def by (simp_all split: sum.split)

lemma add_returns:
  assumes "printToConsole s \<or> writeToFile s \<longrightarrow> renderable tz now"
  shows "fst (add tz now m (JStr l) s) =
           Inr (JObj [(''timestamp'', new_Date now), (''message'', m), (''level'', JStr l)])"
  using assms unfolding add_eq Let_def
  by (auto simp: formatLogEntry_entry)

section \<open>The four level methods\<close>

lemma invoke_add: "invoke tz now c s = add tz now (message_of c) (JStr (level_of c)) s"
  by (cases c) (simp_all add: info_def debug_def warning_def error_def)

lemma invoke_log: "log (snd (invoke tz now c s)) = log s @ [entry_of (now, c)]"
  by (simp add: invoke_add add_log entry_of_def)

lemma invoke_config:
  "printToConsole (snd (invoke tz now c s)) = printToConsole s"
  "writeToFile (snd (invoke tz now c s)) = writeToFile s"
  by (simp_all add: invoke_add add_config)

lemma invoke_returns:
  assumes "printToConsole s \<or> writeToFile s \<longrightarrow> renderable tz now"
  shows "fst (invoke tz now c s) = Inr (entry_of (now, c))"
  using assms by (simp add: invoke_add add_returns entry_of_def)

lemma run_Cons:
  "run tz ((now, c) # cs) s =
     (fst (invoke tz now c s) # fst (run tz cs (snd (invoke tz now c s))),
      snd (run tz cs (snd (invoke tz now c s))))"
  by (simp split: prod.split)

lemma run_log: "log (snd (run tz calls s)) = log s @ map entry_of calls"
proof (induction calls arbitrary: s)
  case Nil
  show ?case by simp
next
  case (Cons nc calls)
  obtain now c where nc: "nc = (now, c)" by (cases nc)
  show ?case
    unfolding nc run_Cons snd_conv Cons.IH invoke_log by simp
qed

lemma run_returns:
  assumes "\<forall>nc \<in> set calls. renderable tz (fst nc)"
  shows "fst (run tz calls s) = map (\<lambda>nc. Inr (entry_of nc)) calls"
  using assms
proof (induction calls arbitrary: s)
  case Nil
  show ?case by simp
next
  case (Cons nc calls)
  obtain now c where nc: "nc = (now, c)" by (cases nc)
  from Cons.prems have "renderable tz now" and rest: "\<forall>nc \<in> set calls. renderable tz (fst nc)"
    by (simp_all add: nc)
  then have "fst (invoke tz now c s) = Inr (entry_of (now, c))"
    by (simp add: invoke_returns)
  with Cons.IH [OF rest] show ?case
    unfolding nc run_Cons by simp
qed

lemma jsLogger_fresh:
  assumes "jsLogger tz now p f w path = Inr s"
  shows "log s = []" "console s = []" "globals s = Map.empty"
        "timeTracking s = \<lparr>length_prop = 0, named = Map.empty\<rparr>"
  using assms by (auto simp: jsLogger_def split: sum.splits if_splits)

lemma level_in_entry_of: "level_in (entry_of nc) = JStr (level_of (snd nc))"
  by (simp add: entry_of_def get_def)

text \<open>
  C1. On a fresh logger, a sequence of calls of \<open>info\<close>, \<open>debug\<close>, \<open>warning\<close> and
  \<open>error\<close> leaves a store with exactly one entry per call, in the order of the calls,
  each with the level literal of its method; each call returns the entry it appended.
  (A call returns when its entry can be printed: the clock readings are taken to be
  renderable in the time zone.)
\<close>

theorem C1_one_entry_per_call:
  assumes "jsLogger tz t0 p f w path = Inr s0"
  shows "log (snd (run tz calls s0)) = map entry_of calls
       \<and> length (log (snd (run tz calls s0))) = length calls
       \<and> map level_in (log (snd (run tz calls s0))) = map (\<lambda>nc. JStr (level_of (snd nc))) calls
       \<and> ((\<forall>nc \<in> set calls. renderable tz (fst nc)) \<longrightarrow>
            fst (run tz calls s0) = map Inr (log (snd (run tz calls s0))))"
proof -
  have stored: "log (snd (run tz calls s0)) = map entry_of calls"
    by (simp add: run_log jsLogger_fresh(1) [OF assms])
  have levels: "map level_in (map entry_of calls) = map (\<lambda>nc. JStr (level_of (snd nc))) calls"
    by (simp add: level_in_entry_of)
  have returned: "fst (run tz calls s0) = map Inr (map entry_of calls)"
    if "\<forall>nc \<in> set calls. renderable tz (fst nc)"
    using run_returns [OF that] by simp
  show ?thesis
    unfolding stored using levels returned by simp
qed

theorem C1_one_entry_per_call_witness:
  "log (snd (run (-120)
               [(1525169167050, Info (JStr ''program started'')),
                (1525169167050, Debug (JObj [(''value'', JBool False)])),
                (1525169167051, Warning JUndefined),
                (1525169167051, Error (JStr ''file not found''))]
               (example_logger True)))
     = [JObj [(''timestamp'', JDate (Some 1525169167050)), (''message'', JStr ''program started''),
              (''level'', JStr ''info'')],
        JObj [(''timestamp'', JDate (Some 1525169167050)),
              (''message'', JObj [(''value'', JBool False)]), (''level'', JStr ''debug'')],
        JObj [(''timestamp'', JDate (Some 1525169167051)), (''message'', JUndefined),
              (''level'', JStr ''warning'')],
        JObj [(''timestamp'', JDate (Some 1525169167051)), (''message'', JStr ''file not found''),
              (''level'', JStr ''error'')]]
   \<and> fst (run (-120)
               [(1525169167050, Info (JStr ''program started'')),
                (1525169167050, Debug (JObj [(''value'', JBool False)])),
                (1525169167051, Warning JUndefined),
                (1525169167051, Error (JStr ''file not found''))]
               (example_logger True))
     = map Inr (log (snd (run (-120)
               [(1525169167050, Info (JStr ''program started'')),
                (1525169167050, Debug (JObj [(''value'', JBool False)])),
                (1525169167051, Warning JUndefined),
                (1525169167051, Error (JStr ''file not found''))]
               (example_logger True))))"
proof -
  have fresh: "jsLogger (-120) 1525169167000 (JBool True) JUndefined JUndefined (JStr ''example.log'')
               = Inr (example_logger True)"
    by (simp add: jsLogger_def example_logger_def)
  show ?thesis
    using C1_one_entry_per_call [OF fresh,
        of "[(1525169167050, Info (JStr ''program started'')),
             (1525169167050, Debug (JObj [(''value'', JBool False)])),
             (1525169167051, Warning JUndefined),
             (1525169167051, Error (JStr ''file not found''))]"]
    by (simp add: entry_of_def new_Date_def TimeClip_def renderable_def)
qed

section \<open>The formatter\<close>

text \<open>
  C7. For an object that lacks one of the attributes \<open>timestamp\<close>, \<open>level\<close> and
  \<open>message\<close>, \<open>formatLogEntry\<close> returns the empty string; it does not throw, and it
  leaves the state as it is.
\<close>

theorem C7_incomplete_entry_empty:
  assumes "lacks_attribute e"
  shows "formatLogEntry tz now e s = (Inr [], s)"
proof (cases e)
  case (JObj kvs)
  with assms have "(has kvs ''timestamp'' \<and> has kvs ''message'' \<and> has kvs ''level'') = False"
    by simp
  then show ?thesis
    unfolding formatLogEntry_def JObj by (simp only: jsval.case if_False)
qed (use assms in \<open>simp_all add: formatLogEntry_def\<close>)

theorem C7_incomplete_entry_empty_witness:
  "lacks_attribute (JObj [(''timestamp'', JDate (Some 0)), (''message'', JStr ''m'')])
   \<and> formatLogEntry 0 0 (JObj [(''timestamp'', JDate (Some 0)), (''message'', JStr ''m'')])
         (example_logger True)
       = (Inr [], example_logger True)"
proof -
  have lacks: "lacks_attribute (JObj [(''timestamp'', JDate (Some 0)), (''message'', JStr ''m'')])"
    by (simp add: has_def)
  from lacks C7_incomplete_entry_empty [OF lacks] show ?thesis by simp
qed

text \<open>
  C6, as stated, fails: an entry may have all three attributes and a timestamp that
  \<open>dateToString\<close> cannot render. For an invalid \<open>Date\<close> the call of \<open>toISOString\<close> throws a
  \<open>RangeError\<close>.
\<close>

theorem C6_counterexample:
  "fst (formatLogEntry 0 0
          (JObj [(''timestamp'', JDate None), (''message'', JStr ''m''), (''level'', JStr ''info'')])
          (example_logger True))
   = Inl RangeError"
proof -
  let ?kvs = "[(''timestamp'', JDate None), (''message'', JStr ''m''), (''level'', JStr ''info'')]"
  have attrs: "has ?kvs ''timestamp''" "has ?kvs ''message''" "has ?kvs ''level''"
    by (simp_all add: has_def)
  show ?thesis
    unfolding formatLogEntry_complete [OF attrs]
    by (simp add: get_def dateToString_def toISOString_def)
qed

text \<open>
  C6, amended. For an entry with all three attributes whose timestamp \<open>dateToString\<close>
  renders as \<open>d\<close> and whose level is shown as a string, \<open>formatLogEntry\<close> returns \<open>d\<close>,
  a space, the level in upper case between brackets, \<open>" : "\<close> and the message. A
  message that is not a string is replaced by \<open>JSON.stringify(message, null, 2)\<close> (the
  text \<open>undefined\<close> when that is \<open>undefined\<close>); the timestamp goes to \<open>dateToString\<close> as
  it is.
\<close>

theorem C6_line_of_complete_entry:
  assumes "has kvs ''timestamp''" and "has kvs ''message''" and "has kvs ''level''"
      and "dateToString tz now (get kvs ''timestamp'') (JBool True) = Inr d"
      and "stringified (get kvs ''level'') = JStr level"
  shows "fst (formatLogEntry tz now (JObj kvs) s) =
           Inr (d @ '' ['' @ toUpperCase level @ ''] : ''
                @ (case get kvs ''message'' of
                     JStr message \<Rightarrow> message
                   | v \<Rightarrow> (case JSON_stringify v of
                             JStr serialised \<Rightarrow> serialised
                           | _ \<Rightarrow> ''undefined'')))"
proof -
  have "(case stringified (get kvs ''message'') of JStr m \<Rightarrow> m | _ \<Rightarrow> ''undefined'')
        = (case get kvs ''message'' of
                     JStr message \<Rightarrow> message
                   | v \<Rightarrow> (case JSON_stringify v of
                             JStr serialised \<Rightarrow> serialised
                           | _ \<Rightarrow> ''undefined''))"
    by (cases "get kvs ''message''") (simp_all add: stringified_def)
  then show ?thesis
    using assms by (simp add: formatLogEntry_complete)
qed


lemma dateToString_example:
  "dateToString 0 0 (JDate (Some 1525169167050)) (JBool True) = Inr ''2018-05-01T10:06:07.050''"
  by code_simp

lemma toUpperCase_info: "toUpperCase ''info'' = ''INFO''"
  by code_simp

theorem C6_line_of_complete_entry_witness:
  "fst (formatLogEntry 0 0
          (JObj [(''timestamp'', JDate (Some 1525169167050)),
                 (''message'', JStr ''program started''),
                 (''level'', JStr ''info'')])
          (example_logger True))
   = Inr ''2018-05-01T10:06:07.050 [INFO] : program started''"
proof -
  let ?kvs = "[(''timestamp'', JDate (Some 1525169167050)),
               (''message'', JStr ''program started''),
               (''level'', JStr ''info'')]"
  have attrs: "has ?kvs ''timestamp''" "has ?kvs ''message''" "has ?kvs ''level''"
    by (simp_all add: has_def)
  have date: "dateToString 0 0 (get ?kvs ''timestamp'') (JBool True) = Inr ''2018-05-01T10:06:07.050''"
    by (simp add: get_def dateToString_example)
  have level: "stringified (get ?kvs ''level'') = JStr ''info''"
    by (simp add: get_def stringified_def)
  show ?thesis
    using C6_line_of_complete_entry [OF attrs date level, of "example_logger True"]
    by (simp add: get_def toUpperCase_info)
qed

text \<open>
  C10, as stated, fails: the level of a complete entry may be \<open>undefined\<close>, which
  \<open>JSON.stringify\<close> maps to \<open>undefined\<close>, and calling \<open>toUpperCase\<close> on that throws a
  \<open>TypeError\<close>.
\<close>

theorem C10_counterexample:
  "fst (formatLogEntry 0 0
          (JObj [(''timestamp'', JDate (Some 0)), (''message'', JStr ''m''), (''level'', JUndefined)])
          (example_logger True))
   = Inl TypeError"
proof -
  let ?kvs = "[(''timestamp'', JDate (Some 0)), (''message'', JStr ''m''), (''level'', JUndefined)]"
  have attrs: "has ?kvs ''timestamp''" "has ?kvs ''message''" "has ?kvs ''level''"
    by (simp_all add: has_def)
  have date: "dateToString 0 0 (JDate (Some 0)) (JBool True) = Inr (butlast (iso_string 0))"
    using dateToString_Date [of 0 0 0] by (simp add: renderable_def)
  show ?thesis
    unfolding formatLogEntry_complete [OF attrs]
    by (simp add: get_def date stringified_def JSON_stringify_def)
qed

text \<open>
  C10, amended. For a complete entry whose level is not a string and is serialised by
  \<open>JSON.stringify(level, null, 2)\<close> to a string, the line shows that string in upper
  case between the brackets (provided \<open>dateToString\<close> renders the timestamp). In the
  copy that the line is built from, every attribute other than \<open>timestamp\<close> that is not
  a string is replaced by its serialisation.
\<close>

theorem C10_non_string_level:
  assumes "has kvs ''timestamp''" and "has kvs ''message''" and "has kvs ''level''"
      and "dateToString tz now (get kvs ''timestamp'') (JBool True) = Inr d"
      and "\<not> is_string (get kvs ''level'')"
      and "JSON_stringify (get kvs ''level'') = JStr serialised"
  shows "fst (formatLogEntry tz now (JObj kvs) s) =
           Inr (d @ '' ['' @ toUpperCase serialised @ ''] : ''
                @ (case stringified (get kvs ''message'') of
                     JStr message \<Rightarrow> message
                   | _ \<Rightarrow> ''undefined''))
       \<and> (\<forall>key. key \<noteq> ''timestamp'' \<and> \<not> is_string (get kvs key) \<longrightarrow>
              get (stringify_loop kvs (map fst kvs) kvs) key = JSON_stringify (get kvs key))"
proof -
  from assms(5,6) have "stringified (get kvs ''level'') = JStr serialised"
    by (simp add: stringified_def)
  with assms(1-4) have line: "fst (formatLogEntry tz now (JObj kvs) s) =
           Inr (d @ '' ['' @ toUpperCase serialised @ ''] : ''
                @ (case stringified (get kvs ''message'') of
                     JStr message \<Rightarrow> message
                   | _ \<Rightarrow> ''undefined''))"
    by (simp add: formatLogEntry_complete)
  have copy: "get (stringify_loop kvs (map fst kvs) kvs) key = JSON_stringify (get kvs key)"
    if "key \<noteq> ''timestamp''" "\<not> is_string (get kvs key)" for key
    using that by (simp add: get_stringify_loop stringified_def)
  from line copy show ?thesis by blast
qed

lemma JSON_stringify_5: "JSON_stringify (JNum (num_of_int 5)) = JStr ''5''"
  by code_simp

lemma dateToString_epoch:
  "dateToString 0 0 (JDate (Some 0)) (JBool True) = Inr ''1970-01-01T00:00:00.000''"
  by code_simp

theorem C10_non_string_level_witness:
  "fst (formatLogEntry 0 0
          (JObj [(''timestamp'', JDate (Some 0)), (''message'', JStr ''m''),
                 (''level'', JNum (num_of_int 5))])
          (example_logger True))
   = Inr ''1970-01-01T00:00:00.000 [5] : m''"
proof -
  let ?kvs = "[(''timestamp'', JDate (Some 0)), (''message'', JStr ''m''),
               (''level'', JNum (num_of_int 5))]"
  have attrs: "has ?kvs ''timestamp''" "has ?kvs ''message''" "has ?kvs ''level''"
    by (simp_all add: has_def)
  have date: "dateToString 0 0 (get ?kvs ''timestamp'') (JBool True) = Inr ''1970-01-01T00:00:00.000''"
    by (simp add: get_def dateToString_epoch)
  have level: "\<not> is_string (get ?kvs ''level'')"
    by (simp add: get_def)
  have json: "JSON_stringify (get ?kvs ''level'') = JStr ''5''"
    by (simp add: get_def JSON_stringify_5)
  have upper: "toUpperCase ''5'' = ''5''"
    by code_simp
  from C10_non_string_level [OF attrs date level json, of "example_logger True"]
  show ?thesis
    by (simp add: get_def stringified_def upper)
qed

section \<open>The date formatter\<close>

text \<open>
  C9, as stated, fails: an invalid \<open>Date\<close> is not a point in time, and for it
  \<open>toISOString\<close> throws a \<open>RangeError\<close>.
\<close>

theorem C9_counterexample: "dateToString 0 0 (JDate None) JUndefined = Inl RangeError"
  by (simp add: dateToString_def toISOString_def)

text \<open>
  C9, amended. For every value that is not a \<open>Date\<close>, not \<open>undefined\<close> (which stands for
  the current time) and not \<open>null\<close>, such as a number, a string, a boolean, an array or
  a plain object, \<open>dateToString\<close> returns the empty string. For a \<open>Date\<close> that holds no
  valid time it throws a \<open>RangeError\<close>.
\<close>

theorem C9_non_date_empty:
  assumes "\<not> is_date date" and "date \<noteq> JUndefined" and "date \<noteq> JNull"
  shows "dateToString tz now date useCurrentTimezone = Inr []
       \<and> dateToString tz now (JDate None) useCurrentTimezone = Inl RangeError"
proof -
  from assms have "dateToString tz now date useCurrentTimezone = Inr []"
    by (cases date) (simp_all add: dateToString_def)
  moreover have "dateToString tz now (JDate None) useCurrentTimezone = Inl RangeError"
    by (simp add: dateToString_def toISOString_def)
  ultimately show ?thesis by simp
qed

theorem C9_non_date_empty_witness:
  "dateToString 0 0 (JNum (num_of_int 1525169167050)) JUndefined = Inr []
   \<and> dateToString 0 0 (JStr ''2018-05-01'') JUndefined = Inr []"
  using C9_non_date_empty [of "JNum (num_of_int 1525169167050)" 0 0 JUndefined]
        C9_non_date_empty [of "JStr ''2018-05-01''" 0 0 JUndefined]
  by simp

section \<open>Timers\<close>

subsection \<open>Names that are not properties of the array\<close>

lemma time_new:
  assumes "named (timeTracking s) ''hasOwnProperty'' = None"
      and "own_property (timeTracking s) name = None"
      and "name \<noteq> ''__proto__''"
  shows "time name now s =
           (Inr (StartTime now), s\<lparr>timeTracking := put_property (timeTracking s) name now\<rparr>)"
    and "own_property (put_property (timeTracking s) name now) name = Some now"
proof -
  from assms(2) have "name \<noteq> ''length''"
    by (auto simp: own_property_def split: if_splits)
  then show "own_property (put_property (timeTracking s) name now) name = Some now"
    by (simp add: own_property_def put_property_def)
  from assms show "time name now s =
           (Inr (StartTime now), s\<lparr>timeTracking := put_property (timeTracking s) name now\<rparr>)"
    by (simp add: time_def hasOwnProperty_def)
qed

lemma time_active:
  assumes "named (timeTracking s) ''hasOwnProperty'' = None"
      and "own_property (timeTracking s) name = Some start"
  shows "time name now s = (Inr TimeFalse, s)"
  using assms by (simp add: time_def hasOwnProperty_def)

lemma timeEnd_unknown:
  assumes "named (timeTracking s) ''hasOwnProperty'' = None"
      and "own_property (timeTracking s) name = None"
  shows "timeEnd tz name end stamp s = (Inr TimeEndFalse, s)"
  using assms by (simp add: timeEnd_def hasOwnProperty_def)

lemma timeEnd_active:
  assumes "named (timeTracking s) ''hasOwnProperty'' = None"
      and "named (timeTracking s) name = Some start"
      and "name \<noteq> ''length''"
      and "printToConsole s \<or> writeToFile s \<longrightarrow> renderable tz stamp"
  shows "fst (timeEnd tz name end stamp s) = Inr (Elapsed (Thousandths (end - start)))"
    and "log (snd (timeEnd tz name end stamp s)) =
           log s @ [JObj [(''timestamp'', new_Date stamp),
                          (''message'', JStr ([CHR 0x27] @ name @ [CHR 0x27] @ '' took ''
                              @ num_to_string (Thousandths (end - start)) @ '' seconds'')),
                          (''level'', JStr ''debug'')]]"
    and "named (timeTracking (snd (timeEnd tz name end stamp s))) name = None"
proof -
  define message where
    "message = JStr ([CHR 0x27] @ name @ [CHR 0x27] @ '' took ''
                     @ num_to_string (Thousandths (end - start)) @ '' seconds'')"
  define s1 where "s1 = s\<lparr>timeTracking := delete_property (timeTracking s) name\<rparr>"
  have unfolded: "timeEnd tz name end stamp s =
      (case add tz stamp message JUndefined s1 of
         (Inl e, s2) \<Rightarrow> (Inl e, s2)
       | (Inr logEntry, s2) \<Rightarrow> (Inr (Elapsed (Thousandths (end - start))), s2))"
    using assms(1-3)
    by (simp add: timeEnd_def hasOwnProperty_def own_property_def Let_def message_def s1_def)
  have config: "printToConsole s1 = printToConsole s" "writeToFile s1 = writeToFile s"
               "log s1 = log s"
    by (simp_all add: s1_def)
  have "fst (add tz stamp message (JStr ''debug'') s1) =
          Inr (JObj [(''timestamp'', new_Date stamp), (''message'', message), (''level'', JStr ''debug'')])"
    using assms(4) by (simp add: add_returns config)
  moreover have same: "add tz stamp message JUndefined s1 = add tz stamp message (JStr ''debug'') s1"
    by (simp add: add_def)
  ultimately have returned: "fst (add tz stamp message JUndefined s1) =
      Inr (JObj [(''timestamp'', new_Date stamp), (''message'', message), (''level'', JStr ''debug'')])"
    by simp
  obtain r s2 where rs: "add tz stamp message JUndefined s1 = (r, s2)"
    by (cases "add tz stamp message JUndefined s1")
  with returned have added: "add tz stamp message JUndefined s1 =
      (Inr (JObj [(''timestamp'', new_Date stamp), (''message'', message), (''level'', JStr ''debug'')]), s2)"
    by simp
  from rs have s2_def: "s2 = snd (add tz stamp message JUndefined s1)"
    by simp
  from unfolded added show "fst (timeEnd tz name end stamp s) = Inr (Elapsed (Thousandths (end - start)))"
    by simp
  from unfolded added have "snd (timeEnd tz name end stamp s) = s2" by simp
  then show "log (snd (timeEnd tz name end stamp s)) =
           log s @ [JObj [(''timestamp'', new_Date stamp),
                          (''message'', JStr ([CHR 0x27] @ name @ [CHR 0x27] @ '' took ''
                              @ num_to_string (Thousandths (end - start)) @ '' seconds'')),
                          (''level'', JStr ''debug'')]]"
       and "named (timeTracking (snd (timeEnd tz name end stamp s))) name = None"
    using assms(3)
    by (simp_all add: s2_def add_log add_config config message_def, simp add: s1_def delete_property_def)
qed

subsection \<open>Names that are properties of the array\<close>

lemma example_logger_fresh:
  "jsLogger 0 0 (JBool b) JUndefined JUndefined (JStr ''example.log'') = Inr (example_logger b)"
  by (simp add: jsLogger_def example_logger_def)

text \<open>
  C3. No timer is active on a fresh logger, yet \<open>time\<close> does not start one under the
  name \<open>length\<close>: the array has an own property of that name, so the call returns
  \<open>false\<close> and records nothing. Under the name \<open>__proto__\<close> nothing is recorded either,
  and the call returns \<open>Array.prototype\<close>.
\<close>

theorem C3_time_length_returns_false:
  assumes "jsLogger tz t0 p f w path = Inr s0"
  shows "time ''length'' now s0 = (Inr TimeFalse, s0)
       \<and> time ''__proto__'' now s0 = (Inr ArrayPrototype, s0)"
  using jsLogger_fresh(4) [OF assms]
  by (simp add: time_def hasOwnProperty_def own_property_def)

theorem C3_time_length_returns_false_witness:
  "time ''length'' 1525169167050 (example_logger True) = (Inr TimeFalse, example_logger True)
   \<and> time ''__proto__'' 1525169167050 (example_logger True)
       = (Inr ArrayPrototype, example_logger True)"
  using C3_time_length_returns_false [where now = 1525169167050, OF example_logger_fresh [of True]]
  by simp

text \<open>
  C4. On a fresh logger the name \<open>length\<close> was never passed to \<open>time\<close>, yet
  \<open>timeEnd\<close> finds the array's own \<open>length\<close>, which is 0, takes it for a start time,
  appends an entry and does not return \<open>false\<close>.
\<close>

theorem C4_timeEnd_length_appends:
  assumes "jsLogger tz t0 p f w path = Inr s0"
  shows "fst (timeEnd tz ''length'' end stamp s0) \<noteq> Inr TimeEndFalse
       \<and> log (snd (timeEnd tz ''length'' end stamp s0)) =
           [JObj [(''timestamp'', new_Date stamp),
                  (''message'', JStr ([CHR 0x27] @ ''length'' @ [CHR 0x27] @ '' took ''
                      @ num_to_string (Thousandths end) @ '' seconds'')),
                  (''level'', JStr ''debug'')]]"
proof -
  define message where
    "message = JStr ([CHR 0x27] @ ''length'' @ [CHR 0x27] @ '' took ''
                     @ num_to_string (Thousandths end) @ '' seconds'')"
  note fresh = jsLogger_fresh [OF assms]
  have found: "hasOwnProperty (timeTracking s0) ''length'' = Inr True"
    using fresh(4) by (simp add: hasOwnProperty_def own_property_def)
  have start: "own_property (timeTracking s0) ''length'' = Some 0"
    using fresh(4) by (simp add: own_property_def)
  have kept: "s0\<lparr>timeTracking := delete_property (timeTracking s0) ''length''\<rparr> = s0"
    by (simp add: delete_property_def)
  have unfolded: "timeEnd tz ''length'' end stamp s0 =
      (case add tz stamp message JUndefined s0 of
         (Inl e, s2) \<Rightarrow> (Inl e, s2)
       | (Inr logEntry, s2) \<Rightarrow> (Inr (Elapsed (Thousandths end)), s2))"
    unfolding timeEnd_def Let_def found start kept sum.case option.case diff_0_right
              message_def [symmetric]
    by (rule refl)
  obtain r s2 where rs: "add tz stamp message JUndefined s0 = (r, s2)"
    by (cases "add tz stamp message JUndefined s0")
  from rs have "log s2 = log s0 @ [JObj [(''timestamp'', new_Date stamp), (''message'', message),
                                          (''level'', JStr ''debug'')]]"
    using add_log [of tz stamp message JUndefined s0] by simp
  moreover have "fst (timeEnd tz ''length'' end stamp s0) \<noteq> Inr TimeEndFalse"
    unfolding unfolded rs by (cases r) simp_all
  moreover have "snd (timeEnd tz ''length'' end stamp s0) = s2"
    unfolding unfolded rs by (cases r) simp_all
  ultimately show ?thesis
    by (simp add: fresh(1) message_def)
qed

lemma message_length_example:
  "[CHR 0x27] @ ''length'' @ [CHR 0x27] @ '' took ''
     @ num_to_string (Thousandths 1506) @ '' seconds''
   = [CHR 0x27] @ ''length'' @ [CHR 0x27] @ '' took 1.506 seconds''"
  by code_simp

theorem C4_timeEnd_length_appends_witness:
  "fst (timeEnd 0 ''length'' 1506 1507 (example_logger True)) \<noteq> Inr TimeEndFalse
   \<and> log (snd (timeEnd 0 ''length'' 1506 1507 (example_logger True))) =
       [JObj [(''timestamp'', JDate (Some 1507)),
              (''message'', JStr ([CHR 0x27] @ ''length'' @ [CHR 0x27] @ '' took 1.506 seconds'')),
              (''level'', JStr ''debug'')]]"
  using C4_timeEnd_length_appends [where tz = 0 and ?end = 1506 and stamp = 1507,
          OF example_logger_fresh [of True]]
  unfolding message_length_example
  by (simp add: new_Date_def TimeClip_def)

text \<open>
  C5. A timer named \<open>hasOwnProperty\<close> can be started. From then on the array's own
  property of that name hides the method, and a second call of \<open>time\<close> with the same
  name, before any \<open>timeEnd\<close>, throws a \<open>TypeError\<close> instead of returning \<open>false\<close>.
\<close>

theorem C5_second_time_throws:
  assumes "jsLogger tz t0 p f w path = Inr s0"
  shows "fst (time ''hasOwnProperty'' t1 s0) = Inr (StartTime t1)
       \<and> fst (time ''hasOwnProperty'' t2 (snd (time ''hasOwnProperty'' t1 s0))) = Inl TypeError"
proof -
  have first: "time ''hasOwnProperty'' t1 s0 =
      (Inr (StartTime t1), s0\<lparr>timeTracking := put_property (timeTracking s0) ''hasOwnProperty'' t1\<rparr>)"
    using jsLogger_fresh(4) [OF assms] by (simp add: time_new own_property_def)
  show ?thesis
    unfolding first by (simp add: time_def hasOwnProperty_def put_property_def)
qed

theorem C5_second_time_throws_witness:
  "fst (time ''hasOwnProperty'' 1000 (example_logger True)) = Inr (StartTime 1000)
   \<and> fst (time ''hasOwnProperty'' 2000 (snd (time ''hasOwnProperty'' 1000 (example_logger True))))
       = Inl TypeError"
  using C5_second_time_throws [where ?t1.0 = 1000 and ?t2.0 = 2000, OF example_logger_fresh [of True]]
  by simp

text \<open>
  C2. With the active timer named \<open>hasOwnProperty\<close>, started at \<open>start\<close>, \<open>timeEnd\<close>
  throws a \<open>TypeError\<close>: no elapsed time is returned, no entry is appended and the timer
  stays in the table.
\<close>

theorem C2_timeEnd_throws:
  assumes "jsLogger tz t0 p f w path = Inr s0"
  shows "fst (time ''hasOwnProperty'' start s0) = Inr (StartTime start)
       \<and> timeEnd tz ''hasOwnProperty'' end stamp (snd (time ''hasOwnProperty'' start s0))
           = (Inl TypeError, snd (time ''hasOwnProperty'' start s0))
       \<and> named (timeTracking (snd (time ''hasOwnProperty'' start s0))) ''hasOwnProperty''
           = Some start"
proof -
  have first: "time ''hasOwnProperty'' start s0 =
      (Inr (StartTime start),
       s0\<lparr>timeTracking := put_property (timeTracking s0) ''hasOwnProperty'' start\<rparr>)"
    using jsLogger_fresh(4) [OF assms] by (simp add: time_new own_property_def)
  show ?thesis
    unfolding first by (simp add: timeEnd_def hasOwnProperty_def put_property_def)
qed

theorem C2_timeEnd_throws_witness:
  "fst (time ''hasOwnProperty'' 1000 (example_logger True)) = Inr (StartTime 1000)
   \<and> fst (timeEnd 0 ''hasOwnProperty'' 1506 1506
             (snd (time ''hasOwnProperty'' 1000 (example_logger True))))
       = Inl TypeError"
  using C2_timeEnd_throws [where start = 1000 and tz = 0 and ?end = 1506 and stamp = 1506,
          OF example_logger_fresh [of True]]
  by simp

section \<open>The dump\<close>

lemma formatLogEntry_value_state:
  "fst (formatLogEntry tz now e s) = fst (formatLogEntry tz now e s')"
proof (cases e)
  case (JObj kvs)
  show ?thesis
  proof (cases "has kvs ''timestamp'' \<and> has kvs ''message'' \<and> has kvs ''level''")
    case True
    then show ?thesis
      unfolding JObj by (simp add: formatLogEntry_complete)
  next
    case False
    then have "(has kvs ''timestamp'' \<and> has kvs ''message'' \<and> has kvs ''level'') = False"
      by simp
    then show ?thesis
      unfolding formatLogEntry_def JObj by (simp only: jsval.case if_False fst_conv)
  qed
qed (simp_all add: formatLogEntry_def)

lemma formatLogEntry_fields:
  "log (snd (formatLogEntry tz now e s)) = log s"
  "timeTracking (snd (formatLogEntry tz now e s)) = timeTracking s"
  "printToConsole (snd (formatLogEntry tz now e s)) = printToConsole s"
  "writeToFile (snd (formatLogEntry tz now e s)) = writeToFile s"
  "logFilePath (snd (formatLogEntry tz now e s)) = logFilePath s"
  "console (snd (formatLogEntry tz now e s)) = console s"
  unfolding formatLogEntry_state by (simp_all split: jsval.split)

lemma dump_loop_Cons:
  "dump_loop tz now (logEntry # es) i out s =
     (case fst (formatLogEntry tz now logEntry s) of
        Inl e \<Rightarrow>
          (Inl e, snd (formatLogEntry tz now logEntry
                        (s\<lparr>globals := (globals s)(''i'' \<mapsto> JStr (decimal i),
                                                  ''logEntry'' \<mapsto> logEntry)\<rparr>)))
      | Inr logLine \<Rightarrow>
          dump_loop tz now es (Suc i) (out @ logLine @ [CHR 0x0A])
            ((snd (formatLogEntry tz now logEntry
                    (s\<lparr>globals := (globals s)(''i'' \<mapsto> JStr (decimal i),
                                              ''logEntry'' \<mapsto> logEntry)\<rparr>)))
             \<lparr>globals :=
                (globals (snd (formatLogEntry tz now logEntry
                    (s\<lparr>globals := (globals s)(''i'' \<mapsto> JStr (decimal i),
                                              ''logEntry'' \<mapsto> logEntry)\<rparr>))))
                (''logLine'' \<mapsto> JStr logLine)\<rparr>))"
proof -
  define s0 where "s0 = s\<lparr>globals := (globals s)(''i'' \<mapsto> JStr (decimal i),
                                              ''logEntry'' \<mapsto> logEntry)\<rparr>"
  obtain r s1 where rs: "formatLogEntry tz now logEntry s0 = (r, s1)"
    by (cases "formatLogEntry tz now logEntry s0")
  have "fst (formatLogEntry tz now logEntry s) = r"
    using formatLogEntry_value_state [of tz now logEntry s s0] rs by simp
  then show ?thesis
    unfolding dump_loop.simps s0_def [symmetric] rs
    by (cases r) simp_all
qed

lemma dump_loop_value:
  "fst (dump_loop tz now es i out s) =
     (case concat_lines (map (\<lambda>e. fst (formatLogEntry tz now e s0)) es) of
        Inl e \<Rightarrow> Inl e
      | Inr rest \<Rightarrow> Inr (out @ rest))"
proof (induction es arbitrary: i out s)
  case Nil
  show ?case by simp
next
  case (Cons logEntry es)
  show ?case
  proof (cases "fst (formatLogEntry tz now logEntry s0)")
    case (Inl e)
    then have "fst (formatLogEntry tz now logEntry s) = Inl e"
      using formatLogEntry_value_state [of tz now logEntry s s0] by simp
    with Inl show ?thesis
      unfolding dump_loop_Cons by simp
  next
    case (Inr logLine)
    then have "fst (formatLogEntry tz now logEntry s) = Inr logLine"
      using formatLogEntry_value_state [of tz now logEntry s s0] by simp
    with Inr show ?thesis
      unfolding dump_loop_Cons
      by (cases "concat_lines (map (\<lambda>e. fst (formatLogEntry tz now e s0)) es)")
         (simp_all add: Cons.IH)
  qed
qed

lemma dumpToString_value:
  "fst (dumpToString tz now s) = concat_lines (map (\<lambda>e. fst (formatLogEntry tz now e s)) (log s))"
  unfolding dumpToString_def dump_loop_value [where ?s0.0 = s]
  by (cases "concat_lines (map (\<lambda>e. fst (formatLogEntry tz now e s)) (log s))") simp_all

lemma dump_loop_fields:
  "log (snd (dump_loop tz now es i out s)) = log s
   \<and> timeTracking (snd (dump_loop tz now es i out s)) = timeTracking s
   \<and> printToConsole (snd (dump_loop tz now es i out s)) = printToConsole s
   \<and> writeToFile (snd (dump_loop tz now es i out s)) = writeToFile s
   \<and> logFilePath (snd (dump_loop tz now es i out s)) = logFilePath s
   \<and> console (snd (dump_loop tz now es i out s)) = console s"
proof (induction es arbitrary: i out s)
  case Nil
  show ?case by simp
next
  case (Cons logEntry es)
  show ?case
    unfolding dump_loop_Cons
    by (cases "fst (formatLogEntry tz now logEntry s)")
       (simp_all add: Cons.IH formatLogEntry_fields)
qed

lemma dumpToString_fields:
  "log (snd (dumpToString tz now s)) = log s"
  "timeTracking (snd (dumpToString tz now s)) = timeTracking s"
  "printToConsole (snd (dumpToString tz now s)) = printToConsole s"
  "writeToFile (snd (dumpToString tz now s)) = writeToFile s"
  "logFilePath (snd (dumpToString tz now s)) = logFilePath s"
  "console (snd (dumpToString tz now s)) = console s"
  unfolding dumpToString_def using dump_loop_fields [of tz now "log s" 0 "[]" s] by simp_all

lemma dumpToString_repeated:
  "fst (dumpToString tz now (snd (dumpToString tz now s))) = fst (dumpToString tz now s)"
  unfolding dumpToString_value dumpToString_fields
  using formatLogEntry_value_state [of tz now _ "snd (dumpToString tz now s)" s]
  by simp

lemma formatLogEntry_globals:
  "k \<noteq> ''key'' \<Longrightarrow> globals (snd (formatLogEntry tz now e s)) k = globals s k"
  unfolding formatLogEntry_state by (simp split: jsval.split)

lemma dump_loop_keeps_i:
  "globals s ''i'' \<noteq> None \<Longrightarrow> globals (snd (dump_loop tz now es i out s)) ''i'' \<noteq> None"
proof (induction es arbitrary: i out s)
  case Nil
  then show ?case by simp
next
  case (Cons logEntry es)
  show ?case
    unfolding dump_loop_Cons
    by (cases "fst (formatLogEntry tz now logEntry s)")
       (simp_all add: Cons.IH formatLogEntry_globals)
qed

text \<open>
  C8. \<open>dumpToString\<close> returns the lines of the entries, each followed by a newline, in
  the order of the store (\<open>dumpToString_value\<close>); it leaves the fields of the logger and
  the console as they are (\<open>dumpToString_fields\<close>), and a second call returns the same
  string (\<open>dumpToString_repeated\<close>). It is not free of side effects, though: on a store
  that is not empty the loop assigns the undeclared variable \<open>i\<close> (and \<open>logEntry\<close>,
  \<open>logLine\<close> and, in \<open>formatLogEntry\<close>, \<open>key\<close>), which creates global variables or
  overwrites the caller's.
\<close>

theorem C8_dumpToString_assigns_globals:
  assumes "log s \<noteq> []" and "globals s ''i'' = None"
  shows "globals (snd (dumpToString tz now s)) ''i'' \<noteq> None
       \<and> snd (dumpToString tz now s) \<noteq> s"
proof -
  from assms(1) obtain logEntry es where entries: "log s = logEntry # es"
    by (cases "log s") simp_all
  have "globals (snd (dump_loop tz now (logEntry # es) 0 [] s)) ''i'' \<noteq> None"
    unfolding dump_loop_Cons
    by (cases "fst (formatLogEntry tz now logEntry s)")
       (simp_all add: formatLogEntry_globals dump_loop_keeps_i)
  then have "globals (snd (dumpToString tz now s)) ''i'' \<noteq> None"
    by (simp add: dumpToString_def entries)
  with assms(2) show ?thesis by auto
qed

theorem C8_dumpToString_assigns_globals_witness:
  "globals (snd (info 0 5 (JStr ''a'') (example_logger False))) ''i'' = None
   \<and> globals (snd (dumpToString 0 9 (snd (info 0 5 (JStr ''a'') (example_logger False))))) ''i''
       \<noteq> None"
proof -
  have s: "snd (info 0 5 (JStr ''a'') (example_logger False)) =
      (example_logger False)
        \<lparr>log := [JObj [(''timestamp'', JDate (Some 5)), (''message'', JStr ''a''),
                        (''level'', JStr ''info'')]]\<rparr>"
    by (simp add: info_def add_def example_logger_def new_Date_def TimeClip_def Let_def)
  have entries: "log (snd (info 0 5 (JStr ''a'') (example_logger False))) \<noteq> []"
    unfolding s by simp
  have unset: "globals (snd (info 0 5 (JStr ''a'') (example_logger False))) ''i'' = None"
    unfolding s by (simp add: example_logger_def)
  from unset C8_dumpToString_assigns_globals [OF entries unset, of 0 9]
  show ?thesis by simp
qed

end
